theory Spec2Isabelle
  imports Complex_Main
begin

section \<open>The hotkey descriptor of 3RVX (\<open>3RVX/HotkeyInfo.cpp\<close>)\<close>

text \<open>
  A shallow embedding of the class \<open>HotkeyInfo\<close>: one configured hotkey binding, made
  of a key-combination code, an action code, a vector of string arguments, and two
  caches of parsed arguments with their enablement flag.

  Conventions of the embedding:
  \<^item> the C++ \<open>int\<close> fields and results are HOL integers: the code only compares and
    stores them, no arithmetic is done on them, so no overflow can occur; every 32-bit
    value is a HOL integer, hence a statement about all integers covers all \<open>int\<close>s;
  \<^item> an index of type \<open>unsigned int\<close> is a natural number;
  \<^item> a wide string is a \<open>string\<close>;
  \<^item> the two cache maps are partial functions from indices to values;
  \<^item> a \<open>double\<close> is a value of a type parameter \<open>'d\<close>: the code only stores and
    returns doubles and writes the constant zero;
  \<^item> a member function that mutates the object returns the updated object;
  \<^item> reading \<open>args[i]\<close> with \<open>i\<close> beyond the vector is undefined behaviour in C++; the
    operations that can reach such a read return \<open>None\<close> there.
\<close>

subsection \<open>The action catalogue\<close>

definition ActionNames :: "string list" where
  "ActionNames =
    [''Increase Volume'',
     ''Decrease Volume'',
     ''Set Volume'',
     ''Mute'',
     ''Show Volume Slider'',
     ''Eject Drive'',
     ''Eject Last Disk'',
     ''Increase Brightness'',
     ''Decrease Brightness'',
     ''Set Brightness'',
     ''Brightness Slider'',
     ''Media Key'',
     ''Virtual Key'',
     ''Run'',
     ''Enable/Disable OSD'',
     ''Open Settings Dialog'',
     ''Exit 3RVX'']"

definition MediaKeyNames :: "string list" where
  "MediaKeyNames = [''Play/Pause'', ''Stop'', ''Next'', ''Previous'']"

text \<open>
  Modelled from the spec: the enumeration \<open>HotkeyActions\<close> is declared in
  \<open>HotkeyInfo.h\<close>, which is not among the sources. The spec lists the action codes in
  this order and states that a code is the index of its name in \<open>ActionNames\<close>.
\<close>

definition IncreaseVolume :: int where "IncreaseVolume = 0"
definition DecreaseVolume :: int where "DecreaseVolume = 1"
definition SetVolume :: int where "SetVolume = 2"
definition Mute :: int where "Mute = 3"
definition VolumeSlider :: int where "VolumeSlider = 4"
definition EjectDrive :: int where "EjectDrive = 5"
definition EjectLastDisk :: int where "EjectLastDisk = 6"
definition IncreaseBrightness :: int where "IncreaseBrightness = 7"
definition DecreaseBrightness :: int where "DecreaseBrightness = 8"
definition SetBrightness :: int where "SetBrightness = 9"
definition BrightnessSlider :: int where "BrightnessSlider = 10"
definition MediaKey :: int where "MediaKey = 11"
definition VirtualKey :: int where "VirtualKey = 12"
definition Run :: int where "Run = 13"
definition ToggleOSD :: int where "ToggleOSD = 14"
definition OpenSettings :: int where "OpenSettings = 15"
definition Exit :: int where "Exit = 16"

text \<open>
  Modelled from the spec: the enumeration \<open>VolumeKeyArgTypes\<close> is declared in
  \<open>HotkeyInfo.h\<close> as well. The spec gives its values as \<open>NoArgs = 0\<close>, \<open>Units = 1\<close>,
  \<open>Percent = 2\<close>. A value of the enumeration is its underlying integer, so that the
  cast \<open>(VolumeKeyArgTypes) arg1\<close> is the identity on integers.
\<close>

type_synonym VolumeKeyArgTypes = int

definition NoArgs :: VolumeKeyArgTypes where "NoArgs = 0"
definition Units :: VolumeKeyArgTypes where "Units = 1"
definition Percent :: VolumeKeyArgTypes where "Percent = 2"

subsection \<open>The descriptor\<close>

record 'd HotkeyInfo =
  keyCombination :: int
  action :: int
  args :: "string list"
  cache :: bool
  intArgs :: "nat \<rightharpoonup> int"
  doubleArgs :: "nat \<rightharpoonup> 'd"

text \<open>
  The constructor \<open>HotkeyInfo()\<close> sets \<open>_cache\<close> to false and leaves both maps and the
  vector empty; the settings loader then assigns the public fields. \<open>descriptor k a xs\<close>
  is the object after the constructor and the assignment of the three public fields.
\<close>

definition descriptor :: "int \<Rightarrow> int \<Rightarrow> string list \<Rightarrow> 'd HotkeyInfo" where
  "descriptor k a xs =
     \<lparr>keyCombination = k, action = a, args = xs, cache = False,
      intArgs = Map.empty, doubleArgs = Map.empty\<rparr>"

subsection \<open>The numeric parsers of the standard library\<close>

text \<open>
  \<open>std::stoi\<close> and \<open>std::stod\<close> either return a number or throw
  \<open>std::invalid_argument\<close> (nothing to convert) or \<open>std::out_of_range\<close>; both are
  subclasses of \<open>std::exception\<close>. The operations below take the two parsers as
  parameters: \<open>stoi str base\<close> and \<open>stod str\<close>, with the exception as a value.
\<close>

datatype exn = invalid_argument | out_of_range

type_synonym stoi_fn = "string \<Rightarrow> nat \<Rightarrow> exn + int"
type_synonym 'd stod_fn = "string \<Rightarrow> exn + 'd"

subsection \<open>Argument access\<close>

definition HasArgs :: "'d HotkeyInfo \<Rightarrow> bool" where
  "HasArgs hki = ((args hki = []) = False)"

text \<open>
  \<open>args.size() - 1\<close> is an unsigned subtraction; it is reached with a non-empty
  vector only, where it does not wrap.
\<close>

definition HasArg :: "'d HotkeyInfo \<Rightarrow> nat \<Rightarrow> bool" where
  "HasArg hki argIdx =
     (if args hki = [] then False
      else length (args hki) - 1 \<ge> argIdx)"

definition subscript :: "'a list \<Rightarrow> nat \<Rightarrow> 'a option" where
  "subscript xs i = (if i < length xs then Some (xs ! i) else None)"

definition ArgToInt :: "stoi_fn \<Rightarrow> 'd HotkeyInfo \<Rightarrow> nat \<Rightarrow> (int \<times> 'd HotkeyInfo) option" where
  "ArgToInt stoi hki argIdx =
     (if cache hki \<and> intArgs hki argIdx \<noteq> None
      then Some (the (intArgs hki argIdx), hki)
      else case subscript (args hki) argIdx of
        None \<Rightarrow> None
      | Some a \<Rightarrow>
          let i = (case stoi a 10 of Inr v \<Rightarrow> v | Inl e \<Rightarrow> 0)
          in Some (i, if cache hki
                      then hki\<lparr>intArgs := (intArgs hki)(argIdx \<mapsto> i)\<rparr>
                      else hki))"

definition ArgToDouble :: "'d stod_fn \<Rightarrow> ('d::zero) HotkeyInfo \<Rightarrow> nat \<Rightarrow> ('d \<times> 'd HotkeyInfo) option" where
  "ArgToDouble stod hki argIdx =
     (if cache hki \<and> doubleArgs hki argIdx \<noteq> None
      then Some (the (doubleArgs hki argIdx), hki)
      else case subscript (args hki) argIdx of
        None \<Rightarrow> None
      | Some a \<Rightarrow>
          let d = (case stod a of Inr v \<Rightarrow> v | Inl e \<Rightarrow> 0)
          in Some (d, if cache hki
                      then hki\<lparr>doubleArgs := (doubleArgs hki)(argIdx \<mapsto> d)\<rparr>
                      else hki))"

definition HexArgToInt :: "stoi_fn \<Rightarrow> 'd HotkeyInfo \<Rightarrow> nat \<Rightarrow> (int \<times> 'd HotkeyInfo) option" where
  "HexArgToInt stoi hki argIdx =
     (if cache hki \<and> intArgs hki argIdx \<noteq> None
      then Some (the (intArgs hki argIdx), hki)
      else case subscript (args hki) argIdx of
        None \<Rightarrow> None
      | Some a \<Rightarrow>
          let i = (case stoi a 16 of Inr v \<Rightarrow> v | Inl e \<Rightarrow> 0)
          in Some (i, if cache hki
                      then hki\<lparr>intArgs := (intArgs hki)(argIdx \<mapsto> i)\<rparr>
                      else hki))"

definition EnableArgCache :: "'d HotkeyInfo \<Rightarrow> 'd HotkeyInfo" where
  "EnableArgCache hki = hki\<lparr>cache := True\<rparr>"

definition DisableArgCache :: "'d HotkeyInfo \<Rightarrow> 'd HotkeyInfo" where
  "DisableArgCache hki = hki\<lparr>cache := False\<rparr>"

definition ClearArgCache :: "'d HotkeyInfo \<Rightarrow> 'd HotkeyInfo" where
  "ClearArgCache hki = hki\<lparr>intArgs := Map.empty, doubleArgs := Map.empty\<rparr>"

definition VolumeArgType :: "stoi_fn \<Rightarrow> 'd HotkeyInfo \<Rightarrow> (VolumeKeyArgTypes \<times> 'd HotkeyInfo) option" where
  "VolumeArgType stoi hki =
     (if HasArgs hki = False then Some (NoArgs, hki)
      else if HasArg hki 1 = False then Some (Units, hki)
      else case ArgToInt stoi hki 1 of
        None \<Rightarrow> None
      | Some (arg1, hki') \<Rightarrow> Some (arg1, hki'))"

subsection \<open>Rendering\<close>

text \<open>
  \<open>HotkeyManager::HotkeysToString\<close> belongs to the hotkey manager, which is not among
  the sources; \<open>ToString\<close> takes it as a parameter. The loop over \<open>args\<close> appends
  \<open>'arg'\<close> and a space to \<open>argStrs\<close> for each argument.
\<close>

fun argStrs_loop :: "string \<Rightarrow> string list \<Rightarrow> string" where
  "argStrs_loop argStrs [] = argStrs"
| "argStrs_loop argStrs (arg # rest) =
     argStrs_loop (argStrs @ ([CHR 0x27] @ arg @ [CHR 0x27, CHR '' ''])) rest"

definition ToString :: "(int \<Rightarrow> string) \<Rightarrow> 'd HotkeyInfo \<Rightarrow> string" where
  "ToString HotkeysToString hki =
     (let combination = HotkeysToString (keyCombination hki);
          act = (if action hki \<ge> 0 \<and> nat (action hki) < length ActionNames
                 then ActionNames ! nat (action hki)
                 else ''(none)'');
          argStrs = argStrs_loop [] (args hki)
      in combination @ '' -> '' @ act @ '' [ '' @ argStrs @ '']'')"

subsection \<open>Validation\<close>

text \<open>
  \<open>LogInvalid\<close> hands the rendered descriptor and the reason to the logging macro
  \<open>CLOG\<close>. A log line is that pair; \<open>Valid\<close> returns its result, the lines it has
  logged and the descriptor, whose integer cache \<open>ArgToInt\<close> may have filled.
\<close>

type_synonym logline = "string \<times> string"

definition LogInvalid :: "(int \<Rightarrow> string) \<Rightarrow> 'd HotkeyInfo \<Rightarrow> string \<Rightarrow> logline" where
  "LogInvalid HotkeysToString hki reason = (ToString HotkeysToString hki, reason)"

definition Valid ::
  "stoi_fn \<Rightarrow> (int \<Rightarrow> string) \<Rightarrow> 'd HotkeyInfo \<Rightarrow> (bool \<times> logline list \<times> 'd HotkeyInfo) option" where
  "Valid stoi hts hki =
     (if keyCombination hki \<le> 0 then
        Some (False, [LogInvalid hts hki ''No key combination''], hki)
      else if action hki < 0 \<or> action hki > int (length ActionNames) then
        Some (False, [LogInvalid hts hki ''Invalid action''], hki)
      else if action hki = IncreaseVolume \<or> action hki = DecreaseVolume
            \<or> action hki = SetVolume \<or> action hki = IncreaseBrightness
            \<or> action hki = DecreaseBrightness \<or> action hki = SetBrightness then
        (if HasArgs hki = False then Some (True, [], hki)
         else case subscript (args hki) 0 of
           None \<Rightarrow> None
         | Some arg0 \<Rightarrow>
             if arg0 = [] then
               Some (False, [LogInvalid hts hki ''No first argument''], hki)
             else case ArgToInt stoi hki 0 of
               None \<Rightarrow> None
             | Some (amount, hki1) \<Rightarrow>
                 if amount < 0 \<or> amount > 100 then
                   Some (False, [LogInvalid hts hki1 ''Argument amount out of range''], hki1)
                 else if amount = 0 \<and> action hki1 \<noteq> SetVolume
                         \<and> action hki1 \<noteq> SetBrightness then
                   Some (False, [LogInvalid hts hki1 ''Argument increment must be nonzero''], hki1)
                 else if HasArg hki1 1 then
                   (case ArgToInt stoi hki1 1 of
                      None \<Rightarrow> None
                    | Some (type, hki2) \<Rightarrow>
                        if type < 0 \<or> type > 2 then
                          Some (False, [LogInvalid hts hki2 ''Unknown increment type''], hki2)
                        else Some (True, [], hki2))
                 else Some (True, [], hki1))
      else if action hki = EjectDrive \<or> action hki = MediaKey \<or> action hki = Run then
        (if HasArgs hki = False then
           Some (False, [LogInvalid hts hki ''Argument required''], hki)
         else Some (True, [], hki))
      else Some (True, [], hki))"

subsection \<open>A parser for evaluating concrete descriptors\<close>

text \<open>
  \<open>ascii_stoi\<close> follows \<open>std::stoi\<close> on ASCII input, for a base between 2 and 36: leading
  white space is skipped, a sign is read, in base 16 a prefix \<open>0x\<close> before a hexadecimal
  digit is skipped, and the longest run of digits of the base is the number. Without a
  digit the conversion fails with \<open>invalid_argument\<close>; a number that does not fit a
  32-bit \<open>int\<close> fails with \<open>out_of_range\<close>. The properties below hold for every parser;
  this one instantiates them at concrete descriptors.
\<close>

definition isspace :: "char \<Rightarrow> bool" where
  "isspace c = (of_char c = (32::nat) \<or> ((9::nat) \<le> of_char c \<and> of_char c \<le> (13::nat)))"

definition digit_of :: "char \<Rightarrow> nat option" where
  "digit_of c =
     (let n = (of_char c :: nat) in
      if 48 \<le> n \<and> n \<le> 57 then Some (n - 48)
      else if 97 \<le> n \<and> n \<le> 122 then Some (n - 87)
      else if 65 \<le> n \<and> n \<le> 90 then Some (n - 55)
      else None)"

fun digits :: "nat \<Rightarrow> string \<Rightarrow> nat list" where
  "digits base [] = []"
| "digits base (c # cs) =
     (case digit_of c of
        None \<Rightarrow> []
      | Some d \<Rightarrow> if d < base then d # digits base cs else [])"

definition has_hex_prefix :: "string \<Rightarrow> bool" where
  "has_hex_prefix s =
     (case s of
        c0 # c1 # c2 # rest \<Rightarrow>
          c0 = CHR ''0'' \<and> (c1 = CHR ''x'' \<or> c1 = CHR ''X'')
          \<and> (case digit_of c2 of None \<Rightarrow> False | Some d \<Rightarrow> d < 16)
      | _ \<Rightarrow> False)"

definition ascii_stoi :: stoi_fn where
  "ascii_stoi str base =
     (let s1 = dropWhile isspace str;
          neg = (case s1 of c # cs \<Rightarrow> c = CHR ''-'' | [] \<Rightarrow> False);
          s2 = (case s1 of
                  c # cs \<Rightarrow> if c = CHR ''-'' \<or> c = CHR ''+'' then cs else s1
                | [] \<Rightarrow> s1);
          s3 = (if base = 16 \<and> has_hex_prefix s2 then drop 2 s2 else s2);
          ds = digits base s3;
          n = foldl (\<lambda>v d. v * int base + int d) 0 ds;
          v = (if neg then - n else n)
      in if ds = [] then Inl invalid_argument
         else if v < - (2 ^ 31) \<or> 2 ^ 31 - 1 < v then Inl out_of_range
         else Inr v)"

subsection \<open>The value a call returns\<close>

text \<open>
  \<open>int_value stoi hki i\<close> is the integer that the call \<open>ArgToInt(i)\<close> returns on the
  descriptor \<open>hki\<close>, without the descriptor it leaves behind.
\<close>

definition int_value :: "stoi_fn \<Rightarrow> 'd HotkeyInfo \<Rightarrow> nat \<Rightarrow> int option" where
  "int_value stoi hki i = map_option fst (ArgToInt stoi hki i)"

section \<open>Properties\<close>

subsection \<open>Evaluation rules and basic facts\<close>

lemmas action_codes =
  IncreaseVolume_def DecreaseVolume_def SetVolume_def Mute_def VolumeSlider_def
  EjectDrive_def EjectLastDisk_def IncreaseBrightness_def DecreaseBrightness_def
  SetBrightness_def BrightnessSlider_def MediaKey_def VirtualKey_def Run_def
  ToggleOSD_def OpenSettings_def Exit_def

lemmas ascii_stoi_eval = ascii_stoi_def isspace_def digit_of_def has_hex_prefix_def

lemma length_ActionNames: "length ActionNames = 17"
  by (simp add: ActionNames_def)

lemma ActionNames_not_none: "n < length ActionNames \<Longrightarrow> ActionNames ! n \<noteq> ''(none)''"
proof -
  have "\<forall>x \<in> set ActionNames. x \<noteq> ''(none)''"
    by (simp add: ActionNames_def)
  then show "n < length ActionNames \<Longrightarrow> ActionNames ! n \<noteq> ''(none)''"
    using nth_mem by blast
qed

lemma subscript_Some: "i < length xs \<Longrightarrow> subscript xs i = Some (xs ! i)"
  by (simp add: subscript_def)

lemma HasArg_less_length: "HasArg hki i \<longleftrightarrow> i < length (args hki)"
  by (cases "args hki") (simp_all add: HasArg_def less_Suc_eq_le)

subsection \<open>The parsing operations\<close>

text \<open>
  Each of the three parsing operations either finds its index in the cache it reads, and
  returns the entry without looking at the argument, or reads the argument, parses it
  and, with caching enabled, stores the result.
\<close>

lemma ArgToInt_hit:
  "cache hki \<Longrightarrow> intArgs hki i = Some c \<Longrightarrow> ArgToInt stoi hki i = Some (c, hki)"
  by (simp add: ArgToInt_def)

lemma HexArgToInt_hit:
  "cache hki \<Longrightarrow> intArgs hki i = Some c \<Longrightarrow> HexArgToInt stoi hki i = Some (c, hki)"
  by (simp add: HexArgToInt_def)

lemma ArgToDouble_hit:
  "cache hki \<Longrightarrow> doubleArgs hki i = Some c \<Longrightarrow> ArgToDouble stod hki i = Some (c, hki)"
  by (simp add: ArgToDouble_def)

lemma ArgToInt_miss:
  "\<not> (cache hki \<and> intArgs hki i \<noteq> None) \<Longrightarrow> i < length (args hki) \<Longrightarrow>
   ArgToInt stoi hki i =
     Some (case stoi (args hki ! i) 10 of Inr v \<Rightarrow> v | Inl e \<Rightarrow> 0,
           if cache hki
           then hki\<lparr>intArgs := (intArgs hki)(i \<mapsto> case stoi (args hki ! i) 10 of Inr v \<Rightarrow> v | Inl e \<Rightarrow> 0)\<rparr>
           else hki)"
  by (auto simp: ArgToInt_def subscript_def Let_def)

lemma HexArgToInt_miss:
  "\<not> (cache hki \<and> intArgs hki i \<noteq> None) \<Longrightarrow> i < length (args hki) \<Longrightarrow>
   HexArgToInt stoi hki i =
     Some (case stoi (args hki ! i) 16 of Inr v \<Rightarrow> v | Inl e \<Rightarrow> 0,
           if cache hki
           then hki\<lparr>intArgs := (intArgs hki)(i \<mapsto> case stoi (args hki ! i) 16 of Inr v \<Rightarrow> v | Inl e \<Rightarrow> 0)\<rparr>
           else hki)"
  by (auto simp: HexArgToInt_def subscript_def Let_def)

lemma ArgToDouble_miss:
  "\<not> (cache hki \<and> doubleArgs hki i \<noteq> None) \<Longrightarrow> i < length (args hki) \<Longrightarrow>
   ArgToDouble stod hki i =
     Some (case stod (args hki ! i) of Inr v \<Rightarrow> v | Inl e \<Rightarrow> 0,
           if cache hki
           then hki\<lparr>doubleArgs := (doubleArgs hki)(i \<mapsto> case stod (args hki ! i) of Inr v \<Rightarrow> v | Inl e \<Rightarrow> 0)\<rparr>
           else hki)"
  by (auto simp: ArgToDouble_def subscript_def Let_def)

lemma ArgToInt_returns:
  assumes "i < length (args hki)"
  shows "\<exists>v h. ArgToInt stoi hki i = Some (v, h)"
proof (cases "cache hki \<and> intArgs hki i \<noteq> None")
  case True
  then show ?thesis by (auto simp: ArgToInt_hit)
next
  case False
  then show ?thesis using assms ArgToInt_miss [of hki i stoi] by blast
qed

lemma HexArgToInt_returns:
  assumes "i < length (args hki)"
  shows "\<exists>v h. HexArgToInt stoi hki i = Some (v, h)"
proof (cases "cache hki \<and> intArgs hki i \<noteq> None")
  case True
  then show ?thesis by (auto simp: HexArgToInt_hit)
next
  case False
  then show ?thesis using assms HexArgToInt_miss [of hki i stoi] by blast
qed

lemma ArgToDouble_returns:
  assumes "i < length (args hki)"
  shows "\<exists>d h. ArgToDouble stod hki i = Some (d, h)"
proof (cases "cache hki \<and> doubleArgs hki i \<noteq> None")
  case True
  then show ?thesis by (auto simp: ArgToDouble_hit)
next
  case False
  then show ?thesis using assms ArgToDouble_miss [of hki i stod] by blast
qed

lemma ArgToInt_frame:
  assumes "ArgToInt stoi hki i = Some (v, h)"
  shows "keyCombination h = keyCombination hki" and "action h = action hki"
    and "args h = args hki" and "cache h = cache hki" and "doubleArgs h = doubleArgs hki"
    and "j \<noteq> i \<Longrightarrow> intArgs h j = intArgs hki j"
  using assms
  by (auto simp: ArgToInt_def subscript_def Let_def split: if_splits)

lemma ArgToInt_other_index:
  assumes "ArgToInt stoi hki i = Some (v, h)" and "j \<noteq> i"
  shows "map_option fst (ArgToInt stoi h j) = map_option fst (ArgToInt stoi hki j)"
  using assms
  by (auto simp: ArgToInt_def subscript_def Let_def split: if_splits)

lemma ArgToInt_then_hit:
  assumes "cache hki" and "i < length (args hki)"
  shows "\<exists>v h. ArgToInt stoi hki i = Some (v, h) \<and> cache h \<and> intArgs h i = Some v
           \<and> (intArgs hki i = None \<longrightarrow>
                 v = (case stoi (args hki ! i) 10 of Inr n \<Rightarrow> n | Inl e \<Rightarrow> 0))"
proof (cases "intArgs hki i")
  case None
  with assms ArgToInt_miss [of hki i stoi] show ?thesis by simp
next
  case (Some c)
  with assms ArgToInt_hit [of hki i c stoi] show ?thesis by simp
qed

lemma HexArgToInt_then_hit:
  assumes "cache hki" and "i < length (args hki)"
  shows "\<exists>v h. HexArgToInt stoi hki i = Some (v, h) \<and> cache h \<and> intArgs h i = Some v
           \<and> (intArgs hki i = None \<longrightarrow>
                 v = (case stoi (args hki ! i) 16 of Inr n \<Rightarrow> n | Inl e \<Rightarrow> 0))"
proof (cases "intArgs hki i")
  case None
  with assms HexArgToInt_miss [of hki i stoi] show ?thesis by simp
next
  case (Some c)
  with assms HexArgToInt_hit [of hki i c stoi] show ?thesis by simp
qed

lemma int_value_descriptor:
  "i < length xs \<Longrightarrow>
   int_value stoi (descriptor k a xs) i = Some (case stoi (xs ! i) 10 of Inr v \<Rightarrow> v | Inl e \<Rightarrow> 0)"
  by (simp add: int_value_def ArgToInt_def descriptor_def subscript_def)

subsection \<open>Argument presence\<close>

text \<open>
  C9. For every descriptor and every index \<open>i\<close>, index 0 on an empty argument vector
  included, \<open>HasArg(i)\<close> is true exactly when \<open>i\<close> is less than the number of arguments.
\<close>

theorem HasArg_iff_index_in_range:
  "HasArg hki i \<longleftrightarrow> i < length (args hki)"
proof (cases "args hki")
  case Nil
  then show ?thesis by (simp add: HasArg_def)
next
  case (Cons x xs)
  then show ?thesis by (auto simp: HasArg_def)
qed

text \<open>
  C6. \<open>VolumeArgType\<close> returns \<open>NoArgs\<close> when there is no argument, \<open>Units\<close> when there
  is exactly one, and otherwise the integer that \<open>ArgToInt(1)\<close> returns, as it is: the
  cast to the enumeration (\<open>NoArgs = 0\<close>, \<open>Units = 1\<close>, \<open>Percent = 2\<close>) does not clamp.
  With two arguments or more the call \<open>ArgToInt(1)\<close> does return.
\<close>

theorem VolumeArgType_cases:
  "map_option fst (VolumeArgType stoi hki) =
     (if args hki = [] then Some NoArgs
      else if length (args hki) = 1 then Some Units
      else int_value stoi hki 1)
   \<and> (1 < length (args hki) \<longrightarrow> (\<exists>v. int_value stoi hki 1 = Some v))
   \<and> NoArgs = 0 \<and> Units = 1 \<and> Percent = 2"
proof -
  have "1 < length (args hki) \<Longrightarrow> \<exists>v. int_value stoi hki 1 = Some v"
    using ArgToInt_returns [of 1 hki stoi] by (auto simp: int_value_def)
  moreover have "args hki \<noteq> [] \<Longrightarrow> length (args hki) \<noteq> 1 \<Longrightarrow> 1 < length (args hki)"
    by (cases "args hki") auto
  ultimately show ?thesis
    by (auto simp: VolumeArgType_def HasArgs_def HasArg_less_length int_value_def
        NoArgs_def Units_def Percent_def split: option.splits)
qed

text \<open>With the arguments \<open>50\<close> and \<open>7\<close> the result is 7, outside the enumeration.\<close>

theorem VolumeArgType_cases_witness:
  "1 < length (args (descriptor 65601 0 [''50'', ''7''] :: real HotkeyInfo))
   \<and> map_option fst (VolumeArgType ascii_stoi (descriptor 65601 0 [''50'', ''7''] :: real HotkeyInfo))
       = Some 7"
proof -
  let ?d = "descriptor 65601 0 [''50'', ''7''] :: real HotkeyInfo"
  have l: "1 < length (args ?d)" by (simp add: descriptor_def)
  have p: "ascii_stoi ''7'' 10 = Inr 7" by (simp add: ascii_stoi_eval)
  have iv: "int_value ascii_stoi ?d 1 = Some 7" by (simp add: int_value_descriptor p)
  from VolumeArgType_cases [of ascii_stoi ?d] l iv show ?thesis
    by (auto simp: descriptor_def)
qed

subsection \<open>The caches\<close>

text \<open>
  C3. With caching enabled and \<open>i\<close> an index of an argument, \<open>ArgToInt\<close> and
  \<open>HexArgToInt\<close> read and write the same entry of \<open>_intArgs\<close>: after \<open>ArgToInt(i)\<close>
  has returned \<open>v\<close>, \<open>HexArgToInt(i)\<close> returns \<open>v\<close> again and changes nothing, and if
  no entry was cached before, \<open>v\<close> is the base-10 reading of the argument (or 0 when the
  parser throws). The same holds with the two operations exchanged and base 16.
\<close>

theorem intArgs_shared_by_both_bases:
  assumes "cache hki" and "i < length (args hki)"
  shows "(\<exists>v h. ArgToInt stoi hki i = Some (v, h) \<and> HexArgToInt stoi h i = Some (v, h)
            \<and> (intArgs hki i = None \<longrightarrow>
                  v = (case stoi (args hki ! i) 10 of Inr n \<Rightarrow> n | Inl e \<Rightarrow> 0)))
       \<and> (\<exists>w h. HexArgToInt stoi hki i = Some (w, h) \<and> ArgToInt stoi h i = Some (w, h)
            \<and> (intArgs hki i = None \<longrightarrow>
                  w = (case stoi (args hki ! i) 16 of Inr n \<Rightarrow> n | Inl e \<Rightarrow> 0)))"
proof
  from ArgToInt_then_hit [OF assms, of stoi] obtain v h
    where "ArgToInt stoi hki i = Some (v, h)" and "cache h" and "intArgs h i = Some v"
      and "intArgs hki i = None \<longrightarrow> v = (case stoi (args hki ! i) 10 of Inr n \<Rightarrow> n | Inl e \<Rightarrow> 0)"
    by auto
  then show "\<exists>v h. ArgToInt stoi hki i = Some (v, h) \<and> HexArgToInt stoi h i = Some (v, h)
            \<and> (intArgs hki i = None \<longrightarrow>
                  v = (case stoi (args hki ! i) 10 of Inr n \<Rightarrow> n | Inl e \<Rightarrow> 0))"
    by (simp add: HexArgToInt_hit)
next
  from HexArgToInt_then_hit [OF assms, of stoi] obtain w h
    where "HexArgToInt stoi hki i = Some (w, h)" and "cache h" and "intArgs h i = Some w"
      and "intArgs hki i = None \<longrightarrow> w = (case stoi (args hki ! i) 16 of Inr n \<Rightarrow> n | Inl e \<Rightarrow> 0)"
    by auto
  then show "\<exists>w h. HexArgToInt stoi hki i = Some (w, h) \<and> ArgToInt stoi h i = Some (w, h)
            \<and> (intArgs hki i = None \<longrightarrow>
                  w = (case stoi (args hki ! i) 16 of Inr n \<Rightarrow> n | Inl e \<Rightarrow> 0))"
    by (simp add: ArgToInt_hit)
qed

text \<open>
  On the argument \<open>10\<close>, read as 10 in base 10 and as 16 in base 16, \<open>HexArgToInt\<close>
  after \<open>ArgToInt\<close> returns 10.
\<close>

theorem intArgs_shared_by_both_bases_witness:
  "cache (EnableArgCache (descriptor 65601 12 [''10''] :: real HotkeyInfo))
   \<and> 0 < length (args (EnableArgCache (descriptor 65601 12 [''10''] :: real HotkeyInfo)))
   \<and> ascii_stoi ''10'' 10 = Inr 10 \<and> ascii_stoi ''10'' 16 = Inr 16
   \<and> ArgToInt ascii_stoi (EnableArgCache (descriptor 65601 12 [''10''] :: real HotkeyInfo)) 0
       = Some (10, (EnableArgCache (descriptor 65601 12 [''10'']))\<lparr>intArgs := [0 \<mapsto> 10]\<rparr>)
   \<and> HexArgToInt ascii_stoi
        ((EnableArgCache (descriptor 65601 12 [''10''] :: real HotkeyInfo))\<lparr>intArgs := [0 \<mapsto> 10]\<rparr>) 0
       = Some (10, (EnableArgCache (descriptor 65601 12 [''10'']))\<lparr>intArgs := [0 \<mapsto> 10]\<rparr>)"
proof -
  let ?d = "EnableArgCache (descriptor 65601 12 [''10''] :: real HotkeyInfo)"
  have c: "cache ?d" by (simp add: EnableArgCache_def)
  have l: "0 < length (args ?d)" by (simp add: EnableArgCache_def descriptor_def)
  have p10: "ascii_stoi ''10'' 10 = Inr 10" by (simp add: ascii_stoi_eval)
  have p16: "ascii_stoi ''10'' 16 = Inr 16" by (simp add: ascii_stoi_eval)
  have r: "ArgToInt ascii_stoi ?d 0 = Some (10, ?d\<lparr>intArgs := [0 \<mapsto> 10]\<rparr>)"
    by (simp add: ArgToInt_def EnableArgCache_def descriptor_def subscript_def p10)
  from intArgs_shared_by_both_bases [OF c l, of ascii_stoi] r
  have "HexArgToInt ascii_stoi (?d\<lparr>intArgs := [0 \<mapsto> 10]\<rparr>) 0
          = Some (10, ?d\<lparr>intArgs := [0 \<mapsto> 10]\<rparr>)"
    by auto
  with c l p10 p16 r show ?thesis by simp
qed

text \<open>
  C10. \<open>EnableArgCache\<close> and \<open>DisableArgCache\<close> change the flag \<open>_cache\<close> and nothing
  else; both caches keep their entries. Hence, when \<open>ArgToInt(i)\<close> has returned \<open>v\<close>
  with caching enabled, then after disabling the cache, replacing the arguments by any
  others and enabling the cache again, \<open>ArgToInt(i)\<close> still returns \<open>v\<close>, whatever the
  parser would read now.
\<close>

theorem cache_flag_leaves_cached_values:
  "keyCombination (EnableArgCache hki) = keyCombination hki
   \<and> action (EnableArgCache hki) = action hki
   \<and> args (EnableArgCache hki) = args hki
   \<and> intArgs (EnableArgCache hki) = intArgs hki
   \<and> doubleArgs (EnableArgCache hki) = doubleArgs hki
   \<and> cache (EnableArgCache hki)
   \<and> keyCombination (DisableArgCache hki) = keyCombination hki
   \<and> action (DisableArgCache hki) = action hki
   \<and> args (DisableArgCache hki) = args hki
   \<and> intArgs (DisableArgCache hki) = intArgs hki
   \<and> doubleArgs (DisableArgCache hki) = doubleArgs hki
   \<and> \<not> cache (DisableArgCache hki)
   \<and> (cache hki \<and> i < length (args hki) \<longrightarrow>
        (\<exists>v h. ArgToInt stoi hki i = Some (v, h)
           \<and> (\<forall>xs stoi'.
                 map_option fst
                   (ArgToInt stoi' (EnableArgCache ((DisableArgCache h)\<lparr>args := xs\<rparr>)) i)
                 = Some v)))"
proof -
  have "\<exists>v h. ArgToInt stoi hki i = Some (v, h)
           \<and> (\<forall>xs stoi'.
                 map_option fst
                   (ArgToInt stoi' (EnableArgCache ((DisableArgCache h)\<lparr>args := xs\<rparr>)) i)
                 = Some v)"
    if "cache hki" and "i < length (args hki)"
  proof -
    from ArgToInt_then_hit [OF that, of stoi] obtain v h
      where r: "ArgToInt stoi hki i = Some (v, h)" and e: "intArgs h i = Some v"
      by auto
    have "map_option fst
            (ArgToInt stoi' (EnableArgCache ((DisableArgCache h)\<lparr>args := xs\<rparr>)) i) = Some v"
      for xs stoi'
      using e by (simp add: ArgToInt_def EnableArgCache_def DisableArgCache_def)
    with r show ?thesis by blast
  qed
  then show ?thesis
    by (simp add: EnableArgCache_def DisableArgCache_def)
qed

text \<open>
  The argument \<open>5\<close> is cached, the cache disabled, the argument replaced by \<open>9\<close>, the
  cache enabled: the call returns 5.
\<close>

theorem cache_flag_leaves_cached_values_witness:
  "cache (EnableArgCache (descriptor 65601 0 [''5''] :: real HotkeyInfo))
   \<and> 0 < length (args (EnableArgCache (descriptor 65601 0 [''5''] :: real HotkeyInfo)))
   \<and> ArgToInt ascii_stoi (EnableArgCache (descriptor 65601 0 [''5''] :: real HotkeyInfo)) 0
       = Some (5, (EnableArgCache (descriptor 65601 0 [''5'']))\<lparr>intArgs := [0 \<mapsto> 5]\<rparr>)
   \<and> ascii_stoi ''9'' 10 = Inr 9
   \<and> map_option fst
        (ArgToInt ascii_stoi
           (EnableArgCache
              ((DisableArgCache
                  ((EnableArgCache (descriptor 65601 0 [''5''] :: real HotkeyInfo))
                     \<lparr>intArgs := [0 \<mapsto> 5]\<rparr>))
               \<lparr>args := [''9'']\<rparr>)) 0)
       = Some 5"
proof -
  let ?d = "EnableArgCache (descriptor 65601 0 [''5''] :: real HotkeyInfo)"
  have c: "cache ?d" by (simp add: EnableArgCache_def)
  have l: "0 < length (args ?d)" by (simp add: EnableArgCache_def descriptor_def)
  have p5: "ascii_stoi ''5'' 10 = Inr 5" by (simp add: ascii_stoi_eval)
  have p9: "ascii_stoi ''9'' 10 = Inr 9" by (simp add: ascii_stoi_eval)
  have r: "ArgToInt ascii_stoi ?d 0 = Some (5, ?d\<lparr>intArgs := [0 \<mapsto> 5]\<rparr>)"
    by (simp add: ArgToInt_def EnableArgCache_def descriptor_def subscript_def p5)
  from cache_flag_leaves_cached_values [of ?d 0 ascii_stoi] c l r
  have "map_option fst
          (ArgToInt ascii_stoi
             (EnableArgCache ((DisableArgCache (?d\<lparr>intArgs := [0 \<mapsto> 5]\<rparr>))\<lparr>args := [''9'']\<rparr>)) 0)
        = Some 5"
    by auto
  with c l r p9 show ?thesis by simp
qed

subsection \<open>Parse failures\<close>

text \<open>
  C7, as stated, fails. The descriptor has caching enabled and the single argument
  \<open>ff\<close>. \<open>HexArgToInt(0)\<close> returns 255 and caches it. The argument cannot be parsed
  in base 10: \<open>std::stoi\<close> throws \<open>invalid_argument\<close>. Yet \<open>ArgToInt(0)\<close> returns the
  cached 255, not 0.
\<close>

theorem parse_failure_cached_value_counterexample:
  "HexArgToInt ascii_stoi (EnableArgCache (descriptor 65601 12 [''ff''] :: real HotkeyInfo)) 0
     = Some (255, (EnableArgCache (descriptor 65601 12 [''ff'']))\<lparr>intArgs := [0 \<mapsto> 255]\<rparr>)
   \<and> args ((EnableArgCache (descriptor 65601 12 [''ff''] :: real HotkeyInfo))\<lparr>intArgs := [0 \<mapsto> 255]\<rparr>)
     = [''ff'']
   \<and> ascii_stoi ''ff'' 10 = Inl invalid_argument
   \<and> ArgToInt ascii_stoi
        ((EnableArgCache (descriptor 65601 12 [''ff''] :: real HotkeyInfo))\<lparr>intArgs := [0 \<mapsto> 255]\<rparr>) 0
     = Some (255, (EnableArgCache (descriptor 65601 12 [''ff'']))\<lparr>intArgs := [0 \<mapsto> 255]\<rparr>)"
proof -
  have p16: "ascii_stoi ''ff'' 16 = Inr 255" by (simp add: ascii_stoi_eval)
  have p10: "ascii_stoi ''ff'' 10 = Inl invalid_argument" by (simp add: ascii_stoi_eval)
  show ?thesis
    by (simp add: HexArgToInt_def ArgToInt_def EnableArgCache_def descriptor_def
        subscript_def p16 p10)
qed

text \<open>
  C7, amended. For every index \<open>i\<close> of an argument, each of \<open>ArgToInt(i)\<close>,
  \<open>HexArgToInt(i)\<close> and \<open>ArgToDouble(i)\<close> returns a value: an exception of the parser
  never leaves the operation. When caching is disabled, or the cache that the operation
  reads has no entry for \<open>i\<close>, and the parser throws on the argument in the respective
  base or format, the operation returns zero. When caching is enabled and that cache has
  an entry for \<open>i\<close>, the operation returns the entry.
\<close>

theorem parse_failure_without_cache_entry:
  assumes "i < length (args hki)"
  shows "(\<exists>v h. ArgToInt stoi hki i = Some (v, h))
       \<and> (\<exists>v h. HexArgToInt stoi hki i = Some (v, h))
       \<and> (\<exists>d h. ArgToDouble stod hki i = Some (d, h))
       \<and> (\<not> (cache hki \<and> intArgs hki i \<noteq> None) \<longrightarrow>
            (isl (stoi (args hki ! i) 10) \<longrightarrow> map_option fst (ArgToInt stoi hki i) = Some 0)
          \<and> (isl (stoi (args hki ! i) 16) \<longrightarrow> map_option fst (HexArgToInt stoi hki i) = Some 0))
       \<and> (\<not> (cache hki \<and> doubleArgs hki i \<noteq> None) \<longrightarrow>
            (isl (stod (args hki ! i)) \<longrightarrow> map_option fst (ArgToDouble stod hki i) = Some 0))
       \<and> (\<forall>c. cache hki \<and> intArgs hki i = Some c \<longrightarrow>
            map_option fst (ArgToInt stoi hki i) = Some c
          \<and> map_option fst (HexArgToInt stoi hki i) = Some c)
       \<and> (\<forall>c. cache hki \<and> doubleArgs hki i = Some c \<longrightarrow>
            map_option fst (ArgToDouble stod hki i) = Some c)"
proof (intro conjI impI allI)
  show "\<exists>v h. ArgToInt stoi hki i = Some (v, h)"
    by (rule ArgToInt_returns [OF assms])
  show "\<exists>v h. HexArgToInt stoi hki i = Some (v, h)"
    by (rule HexArgToInt_returns [OF assms])
  show "\<exists>d h. ArgToDouble stod hki i = Some (d, h)"
    by (rule ArgToDouble_returns [OF assms])
next
  assume "\<not> (cache hki \<and> intArgs hki i \<noteq> None)" and "isl (stoi (args hki ! i) 10)"
  with assms show "map_option fst (ArgToInt stoi hki i) = Some 0"
    by (auto simp: ArgToInt_miss isl_def)
next
  assume "\<not> (cache hki \<and> intArgs hki i \<noteq> None)" and "isl (stoi (args hki ! i) 16)"
  with assms show "map_option fst (HexArgToInt stoi hki i) = Some 0"
    by (auto simp: HexArgToInt_miss isl_def)
next
  assume "\<not> (cache hki \<and> doubleArgs hki i \<noteq> None)" and "isl (stod (args hki ! i))"
  with assms show "map_option fst (ArgToDouble stod hki i) = Some 0"
    by (auto simp: ArgToDouble_miss isl_def)
next
  fix c assume "cache hki \<and> intArgs hki i = Some c"
  then show "map_option fst (ArgToInt stoi hki i) = Some c"
    by (simp add: ArgToInt_hit)
next
  fix c assume "cache hki \<and> intArgs hki i = Some c"
  then show "map_option fst (HexArgToInt stoi hki i) = Some c"
    by (simp add: HexArgToInt_hit)
next
  fix c assume "cache hki \<and> doubleArgs hki i = Some c"
  then show "map_option fst (ArgToDouble stod hki i) = Some c"
    by (simp add: ArgToDouble_hit)
qed

text \<open>
  Without caching, \<open>abc\<close> yields 0 from \<open>ArgToInt\<close> and \<open>ArgToDouble\<close> and \<open>xyz\<close>
  yields 0 from \<open>HexArgToInt\<close>.
\<close>

theorem parse_failure_without_cache_entry_witness:
  "0 < length (args (descriptor 65601 0 [''abc''] :: real HotkeyInfo))
   \<and> \<not> cache (descriptor 65601 0 [''abc''] :: real HotkeyInfo)
   \<and> isl (ascii_stoi ''abc'' 10) \<and> isl (ascii_stoi ''xyz'' 16)
   \<and> map_option fst (ArgToInt ascii_stoi (descriptor 65601 0 [''abc''] :: real HotkeyInfo) 0) = Some 0
   \<and> map_option fst (HexArgToInt ascii_stoi (descriptor 65601 0 [''xyz''] :: real HotkeyInfo) 0) = Some 0
   \<and> map_option fst
        (ArgToDouble (\<lambda>str. Inl invalid_argument) (descriptor 65601 0 [''abc''] :: real HotkeyInfo) 0)
       = Some 0"
proof -
  let ?d = "descriptor 65601 0 [''abc''] :: real HotkeyInfo"
  let ?x = "descriptor 65601 0 [''xyz''] :: real HotkeyInfo"
  have l: "0 < length (args ?d)" and lx: "0 < length (args ?x)"
    by (simp_all add: descriptor_def)
  have c: "\<not> cache ?d" and cx: "\<not> cache ?x" by (simp_all add: descriptor_def)
  have a: "args ?d ! 0 = ''abc''" and ax: "args ?x ! 0 = ''xyz''"
    by (simp_all add: descriptor_def)
  have p10: "isl (ascii_stoi ''abc'' 10)" by (simp add: ascii_stoi_eval)
  have p16: "isl (ascii_stoi ''xyz'' 16)" by (simp add: ascii_stoi_eval)
  from parse_failure_without_cache_entry [OF l, of ascii_stoi "\<lambda>str. Inl invalid_argument"]
    c a p10
  have 1: "map_option fst (ArgToInt ascii_stoi ?d 0) = Some 0"
    and 3: "map_option fst (ArgToDouble (\<lambda>str. Inl invalid_argument) ?d 0) = Some 0"
    by simp_all
  from parse_failure_without_cache_entry [OF lx, of ascii_stoi "\<lambda>str. Inl invalid_argument"]
    cx ax p16
  have 2: "map_option fst (HexArgToInt ascii_stoi ?x 0) = Some 0"
    by simp
  from l c p10 p16 1 2 3 show ?thesis by simp
qed

subsection \<open>Rendering\<close>

lemma argStrs_loop_concat:
  "argStrs_loop argStrs xs =
     argStrs @ concat (map (\<lambda>arg. [CHR 0x27] @ arg @ [CHR 0x27, CHR '' '']) xs)"
  by (induction xs arbitrary: argStrs) simp_all

text \<open>
  C8. \<open>ToString\<close> is the rendered key combination, the separator \<open> -> \<close>, the action
  segment, the opening \<open> [ \<close>, every argument between single quotes and followed by a
  space, and the closing bracket. The action segment is \<open>(none)\<close> exactly when the
  action code is negative or not less than the size of \<open>ActionNames\<close>, and is the entry
  of \<open>ActionNames\<close> at the action code otherwise.
\<close>

theorem ToString_shape:
  "\<exists>act. ToString hts hki =
            hts (keyCombination hki) @ '' -> '' @ act @ '' [ ''
            @ concat (map (\<lambda>arg. [CHR 0x27] @ arg @ [CHR 0x27, CHR '' '']) (args hki)) @ '']''
     \<and> (act = ''(none)'' \<longleftrightarrow> action hki < 0 \<or> action hki \<ge> int (length ActionNames))
     \<and> (\<not> (action hki < 0 \<or> action hki \<ge> int (length ActionNames)) \<longrightarrow>
          act = ActionNames ! nat (action hki))"
proof -
  have range: "(action hki \<ge> 0 \<and> nat (action hki) < length ActionNames)
                 \<longleftrightarrow> \<not> (action hki < 0 \<or> action hki \<ge> int (length ActionNames))"
    by auto
  show ?thesis
  proof (cases "action hki < 0 \<or> action hki \<ge> int (length ActionNames)")
    case True
    then show ?thesis
      unfolding ToString_def Let_def range argStrs_loop_concat by simp
  next
    case False
    then have "nat (action hki) < length ActionNames" by auto
    then have "ActionNames ! nat (action hki) \<noteq> ''(none)''"
      by (rule ActionNames_not_none)
    with False show ?thesis
      unfolding ToString_def Let_def range argStrs_loop_concat by simp
  qed
qed

text \<open>The action code 17 is rendered as \<open>(none)\<close>, the code 16 by its name.\<close>

theorem ToString_shape_witness:
  "ToString (\<lambda>k. ''Ctrl+A'') (descriptor 65601 17 [''5'', ''x''] :: real HotkeyInfo)
     = ''Ctrl+A -> (none) [ '' @ [CHR 0x27] @ ''5'' @ [CHR 0x27] @ '' '' @ [CHR 0x27] @ ''x''
       @ [CHR 0x27] @ '' ]''
   \<and> ToString (\<lambda>k. ''Ctrl+A'') (descriptor 65601 16 [] :: real HotkeyInfo) = ''Ctrl+A -> Exit 3RVX [ ]''"
proof -
  let ?d = "descriptor 65601 17 [''5'', ''x''] :: real HotkeyInfo"
  let ?e = "descriptor 65601 16 [] :: real HotkeyInfo"
  have o: "action ?d \<ge> int (length ActionNames)"
    by (simp add: descriptor_def ActionNames_def)
  have i: "\<not> (action ?e < 0 \<or> action ?e \<ge> int (length ActionNames))"
    by (simp add: descriptor_def ActionNames_def)
  have n: "ActionNames ! nat (action ?e) = ''Exit 3RVX''"
    by (simp add: descriptor_def ActionNames_def)
  from ToString_shape [of "\<lambda>k. ''Ctrl+A''" ?d] o
  have 1: "ToString (\<lambda>k. ''Ctrl+A'') ?d
     = ''Ctrl+A -> (none) [ '' @ [CHR 0x27] @ ''5'' @ [CHR 0x27] @ '' '' @ [CHR 0x27] @ ''x''
       @ [CHR 0x27] @ '' ]''"
    by (auto simp: descriptor_def)
  from ToString_shape [of "\<lambda>k. ''Ctrl+A''" ?e] i n
  have 2: "ToString (\<lambda>k. ''Ctrl+A'') ?e = ''Ctrl+A -> Exit 3RVX [ ]''"
    by (auto simp: descriptor_def)
  from 1 2 show ?thesis by simp
qed

subsection \<open>Validation\<close>

text \<open>
  C4. A descriptor whose key combination is not positive is invalid, whatever its action
  code and arguments: \<open>Valid\<close> returns false, logs the reason \<open>No key combination\<close> and
  nothing else, and leaves the descriptor as it was, so no other rule has been looked at.
\<close>

theorem Valid_no_key_combination:
  assumes "keyCombination hki \<le> 0"
  shows "Valid stoi hts hki = Some (False, [(ToString hts hki, ''No key combination'')], hki)"
  using assms by (simp add: Valid_def LogInvalid_def)

text \<open>The descriptor with key combination 0, action \<open>Mute\<close> and no argument.\<close>

theorem Valid_no_key_combination_witness:
  "keyCombination (descriptor 0 3 [] :: real HotkeyInfo) \<le> 0
   \<and> Valid ascii_stoi (\<lambda>k. ''Ctrl+A'') (descriptor 0 3 [] :: real HotkeyInfo)
       = Some (False, [(''Ctrl+A -> Mute [ ]'', ''No key combination'')], descriptor 0 3 [])"
proof -
  have k: "keyCombination (descriptor 0 3 [] :: real HotkeyInfo) \<le> 0"
    by (simp add: descriptor_def)
  have "ToString (\<lambda>k. ''Ctrl+A'') (descriptor 0 3 [] :: real HotkeyInfo) = ''Ctrl+A -> Mute [ ]''"
    by (simp add: ToString_def descriptor_def ActionNames_def)
  with k Valid_no_key_combination [OF k, of ascii_stoi "\<lambda>k. ''Ctrl+A''"] show ?thesis
    by simp
qed

text \<open>
  C1. A valid descriptor should have an action code that is an index of \<open>ActionNames\<close>,
  which has 17 entries. \<open>Valid\<close> rejects an action code only when it is greater than
  the size of the table: the descriptor with key combination \<open>0x10041\<close>, action code 17
  and no argument is accepted, although 17 is not an index of the table.
\<close>

theorem Valid_accepts_action_17:
  "Valid stoi hts (descriptor 65601 17 []) = Some (True, [], descriptor 65601 17 [])
   \<and> \<not> (17 < int (length ActionNames))"
  by (simp add: Valid_def descriptor_def length_ActionNames action_codes)

text \<open>
  C5. With a positive key combination and the action \<open>EjectDrive\<close>, \<open>MediaKey\<close> or
  \<open>Run\<close>, \<open>Valid\<close> returns false with the reason \<open>Argument required\<close> when there is
  no argument, and true, with nothing logged and nothing parsed, when there is one.
\<close>

theorem Valid_argument_required:
  assumes "keyCombination hki > 0"
    and "action hki = EjectDrive \<or> action hki = MediaKey \<or> action hki = Run"
  shows "Valid stoi hts hki =
           (if args hki = []
            then Some (False, [(ToString hts hki, ''Argument required'')], hki)
            else Some (True, [], hki))"
  using assms
  by (auto simp: Valid_def LogInvalid_def HasArgs_def length_ActionNames action_codes)

text \<open>\<open>MediaKey\<close> without an argument is rejected; with the argument \<open>2\<close> it is accepted.\<close>

theorem Valid_argument_required_witness:
  "keyCombination (descriptor 65601 11 [] :: real HotkeyInfo) > 0
   \<and> action (descriptor 65601 11 [] :: real HotkeyInfo) = MediaKey
   \<and> Valid ascii_stoi (\<lambda>k. ''Ctrl+A'') (descriptor 65601 11 [] :: real HotkeyInfo)
       = Some (False, [(''Ctrl+A -> Media Key [ ]'', ''Argument required'')], descriptor 65601 11 [])
   \<and> Valid ascii_stoi (\<lambda>k. ''Ctrl+A'') (descriptor 65601 11 [''2''] :: real HotkeyInfo)
       = Some (True, [], descriptor 65601 11 [''2''])"
proof -
  let ?d = "descriptor 65601 11 [] :: real HotkeyInfo"
  let ?e = "descriptor 65601 11 [''2''] :: real HotkeyInfo"
  have k: "keyCombination ?d > 0" and k': "keyCombination ?e > 0"
    by (simp_all add: descriptor_def)
  have a: "action ?d = MediaKey" and a': "action ?e = MediaKey"
    by (simp_all add: descriptor_def MediaKey_def)
  have t: "ToString (\<lambda>k. ''Ctrl+A'') ?d = ''Ctrl+A -> Media Key [ ]''"
    by (simp add: ToString_def descriptor_def ActionNames_def)
  have n: "args ?d = []" and n': "args ?e \<noteq> []"
    by (simp_all add: descriptor_def)
  from Valid_argument_required [of ?d ascii_stoi "\<lambda>k. ''Ctrl+A''"] k a t n
  have 1: "Valid ascii_stoi (\<lambda>k. ''Ctrl+A'') ?d
             = Some (False, [(''Ctrl+A -> Media Key [ ]'', ''Argument required'')], ?d)"
    by simp
  from Valid_argument_required [of ?e ascii_stoi "\<lambda>k. ''Ctrl+A''"] k' a' n'
  have 2: "Valid ascii_stoi (\<lambda>k. ''Ctrl+A'') ?e = Some (True, [], ?e)"
    by simp
  from k a 1 2 show ?thesis by simp
qed

lemma Valid_volume_no_args:
  assumes "keyCombination hki > 0"
    and "action hki = IncreaseVolume \<or> action hki = DecreaseVolume \<or> action hki = SetVolume
         \<or> action hki = IncreaseBrightness \<or> action hki = DecreaseBrightness
         \<or> action hki = SetBrightness"
    and "args hki = []"
  shows "Valid stoi hts hki = Some (True, [], hki)"
  using assms
  by (auto simp: Valid_def HasArgs_def length_ActionNames action_codes)

lemma Valid_volume_args:
  assumes k: "keyCombination hki > 0"
    and a: "action hki = IncreaseVolume \<or> action hki = DecreaseVolume \<or> action hki = SetVolume
         \<or> action hki = IncreaseBrightness \<or> action hki = DecreaseBrightness
         \<or> action hki = SetBrightness"
    and n: "args hki \<noteq> []"
  shows "\<exists>amount. int_value stoi hki 0 = Some amount \<and>
           map_option fst (Valid stoi hts hki) =
             Some (args hki ! 0 \<noteq> [] \<and> 0 \<le> amount \<and> amount \<le> 100
                   \<and> (amount = 0 \<longrightarrow> action hki = SetVolume \<or> action hki = SetBrightness)
                   \<and> (1 < length (args hki) \<longrightarrow>
                        (\<exists>type. int_value stoi hki 1 = Some type \<and> 0 \<le> type \<and> type \<le> 2)))"
proof -
  from n have len0: "0 < length (args hki)" by simp
  from ArgToInt_returns [OF len0] obtain amount h1
    where r0: "ArgToInt stoi hki 0 = Some (amount, h1)" by blast
  note f0 = ArgToInt_frame [OF r0]
  have has1: "HasArg h1 1 = (1 < length (args hki))"
    by (simp add: HasArg_less_length f0)
  have range: "\<not> (action hki < 0 \<or> action hki > int (length ActionNames))"
    using a by (auto simp: length_ActionNames action_codes)
  have sub0: "subscript (args hki) 0 = Some (args hki ! 0)"
    using len0 by (simp add: subscript_def)
  have iv0: "int_value stoi hki 0 = Some amount" by (simp add: int_value_def r0)
  show ?thesis
  proof (cases "1 < length (args hki)")
    case False
    with k a n range sub0 r0 f0 has1 iv0 show ?thesis
      by (simp add: Valid_def HasArgs_def LogInvalid_def)
  next
    case True
    then have len1: "1 < length (args h1)"
      by (simp add: f0)
    from ArgToInt_returns [OF len1] obtain type h2
      where r1: "ArgToInt stoi h1 1 = Some (type, h2)" by blast
    have "map_option fst (ArgToInt stoi h1 1) = map_option fst (ArgToInt stoi hki 1)"
      by (rule ArgToInt_other_index [OF r0]) simp
    with r1 have iv1: "int_value stoi hki 1 = Some type" by (simp add: int_value_def)
    from True k a n range sub0 r0 r1 f0 has1 iv0 iv1 show ?thesis
      by (simp add: Valid_def HasArgs_def LogInvalid_def)
  qed
qed

text \<open>
  C2. With a positive key combination and one of the six volume and brightness actions,
  \<open>Valid\<close> returns true when there is no argument. When there is one, \<open>ArgToInt(0)\<close>
  returns some \<open>amount\<close>, and \<open>Valid\<close> returns true exactly when the first argument is
  not the empty string, \<open>amount\<close> lies between 0 and 100, \<open>amount\<close> is not 0 unless the
  action is \<open>SetVolume\<close> or \<open>SetBrightness\<close>, and, when the vector holds at least two
  arguments, \<open>ArgToInt(1)\<close> returns a value between 0 and 2.
\<close>

theorem Valid_volume_brightness:
  assumes "keyCombination hki > 0"
    and "action hki = IncreaseVolume \<or> action hki = DecreaseVolume \<or> action hki = SetVolume
         \<or> action hki = IncreaseBrightness \<or> action hki = DecreaseBrightness
         \<or> action hki = SetBrightness"
  shows "(args hki = [] \<longrightarrow> map_option fst (Valid stoi hts hki) = Some True) \<and>
         (args hki \<noteq> [] \<longrightarrow>
           (\<exists>amount. int_value stoi hki 0 = Some amount \<and>
              map_option fst (Valid stoi hts hki) =
                Some (args hki ! 0 \<noteq> [] \<and> 0 \<le> amount \<and> amount \<le> 100
                      \<and> (amount = 0 \<longrightarrow> action hki = SetVolume \<or> action hki = SetBrightness)
                      \<and> (1 < length (args hki) \<longrightarrow>
                           (\<exists>type. int_value stoi hki 1 = Some type \<and> 0 \<le> type \<and> type \<le> 2)))))"
proof (intro conjI impI)
  assume "args hki = []"
  with assms show "map_option fst (Valid stoi hts hki) = Some True"
    by (simp add: Valid_volume_no_args)
next
  assume "args hki \<noteq> []"
  with assms show "\<exists>amount. int_value stoi hki 0 = Some amount \<and>
              map_option fst (Valid stoi hts hki) =
                Some (args hki ! 0 \<noteq> [] \<and> 0 \<le> amount \<and> amount \<le> 100
                      \<and> (amount = 0 \<longrightarrow> action hki = SetVolume \<or> action hki = SetBrightness)
                      \<and> (1 < length (args hki) \<longrightarrow>
                           (\<exists>type. int_value stoi hki 1 = Some type \<and> 0 \<le> type \<and> type \<le> 2)))"
    by (rule Valid_volume_args)
qed

text \<open>
  \<open>IncreaseVolume\<close> with the single argument \<open>0\<close> is rejected; with the arguments
  \<open>50\<close> and \<open>2\<close> it is accepted; with the arguments \<open>50\<close> and \<open>3\<close> it is rejected,
  by the rule on the second argument alone.
\<close>

theorem Valid_volume_brightness_witness:
  "keyCombination (descriptor 65601 0 [''0''] :: real HotkeyInfo) > 0
   \<and> action (descriptor 65601 0 [''0''] :: real HotkeyInfo) = IncreaseVolume
   \<and> args (descriptor 65601 0 [''0''] :: real HotkeyInfo) \<noteq> []
   \<and> int_value ascii_stoi (descriptor 65601 0 [''0''] :: real HotkeyInfo) 0 = Some 0
   \<and> map_option fst (Valid ascii_stoi (\<lambda>k. ''Ctrl+A'') (descriptor 65601 0 [''0''] :: real HotkeyInfo))
       = Some False
   \<and> 1 < length (args (descriptor 65601 0 [''50'', ''2''] :: real HotkeyInfo))
   \<and> int_value ascii_stoi (descriptor 65601 0 [''50'', ''2''] :: real HotkeyInfo) 0 = Some 50
   \<and> int_value ascii_stoi (descriptor 65601 0 [''50'', ''2''] :: real HotkeyInfo) 1 = Some 2
   \<and> map_option fst
        (Valid ascii_stoi (\<lambda>k. ''Ctrl+A'') (descriptor 65601 0 [''50'', ''2''] :: real HotkeyInfo))
       = Some True
   \<and> 1 < length (args (descriptor 65601 0 [''50'', ''3''] :: real HotkeyInfo))
   \<and> int_value ascii_stoi (descriptor 65601 0 [''50'', ''3''] :: real HotkeyInfo) 0 = Some 50
   \<and> int_value ascii_stoi (descriptor 65601 0 [''50'', ''3''] :: real HotkeyInfo) 1 = Some 3
   \<and> map_option fst
        (Valid ascii_stoi (\<lambda>k. ''Ctrl+A'') (descriptor 65601 0 [''50'', ''3''] :: real HotkeyInfo))
       = Some False"
proof -
  let ?d = "descriptor 65601 0 [''0''] :: real HotkeyInfo"
  let ?e = "descriptor 65601 0 [''50'', ''2''] :: real HotkeyInfo"
  let ?f = "descriptor 65601 0 [''50'', ''3''] :: real HotkeyInfo"
  have k: "keyCombination ?d > 0" and k': "keyCombination ?e > 0" and k'': "keyCombination ?f > 0"
    by (simp_all add: descriptor_def)
  have a: "action ?d = IncreaseVolume" and a': "action ?e = IncreaseVolume"
    and a'': "action ?f = IncreaseVolume"
    by (simp_all add: descriptor_def action_codes)
  have n: "args ?d \<noteq> []" and n': "args ?e \<noteq> []" and n'': "args ?f \<noteq> []"
    and z: "args ?e ! 0 \<noteq> []" and z': "args ?f ! 0 \<noteq> []"
    and l: "1 < length (args ?e)" and l': "1 < length (args ?f)"
    by (simp_all add: descriptor_def)
  have p0: "ascii_stoi ''0'' 10 = Inr 0" and p50: "ascii_stoi ''50'' 10 = Inr 50"
    and p2: "ascii_stoi ''2'' 10 = Inr 2" and p3: "ascii_stoi ''3'' 10 = Inr 3"
    by (simp_all add: ascii_stoi_eval)
  have iv: "int_value ascii_stoi ?d 0 = Some 0"
    by (simp add: int_value_descriptor p0)
  have iv0: "int_value ascii_stoi ?e 0 = Some 50"
    by (simp add: int_value_descriptor p50)
  have iv1: "int_value ascii_stoi ?e 1 = Some 2"
    by (simp add: int_value_descriptor p2)
  have jv0: "int_value ascii_stoi ?f 0 = Some 50"
    by (simp add: int_value_descriptor p50)
  have jv1: "int_value ascii_stoi ?f 1 = Some 3"
    by (simp add: int_value_descriptor p3)
  from Valid_volume_brightness [of ?d ascii_stoi "\<lambda>k. ''Ctrl+A''"] k a n iv
  have 1: "map_option fst (Valid ascii_stoi (\<lambda>k. ''Ctrl+A'') ?d) = Some False"
    by (auto simp: action_codes)
  from Valid_volume_brightness [of ?e ascii_stoi "\<lambda>k. ''Ctrl+A''"] k' a' n' z l iv0 iv1
  have 2: "map_option fst (Valid ascii_stoi (\<lambda>k. ''Ctrl+A'') ?e) = Some True"
    by (auto simp: action_codes)
  from Valid_volume_brightness [of ?f ascii_stoi "\<lambda>k. ''Ctrl+A''"] k'' a'' n'' z' l' jv0 jv1
  have 3: "map_option fst (Valid ascii_stoi (\<lambda>k. ''Ctrl+A'') ?f) = Some False"
    by (auto simp: action_codes)
  from k a n iv 1 l iv0 iv1 2 l' jv0 jv1 3 show ?thesis by simp
qed

end
